theory Spec2Isabelle
  imports Main "HOL-Library.Sublist"
begin

section \<open>Python strings\<close>

text \<open>
  The source is \<^verbatim>\<open>SRI_Scrapper/SRI_Compras_Scrapper_V1.py\<close>, one class \<^verbatim>\<open>SRIDownloader\<close>.
  A Python \<^verbatim>\<open>str\<close> is a list of code points. A \<^typ>\<open>char\<close> stands here for one code
  point below 256, and the character classes below are the ones Python's Unicode tables
  give on that range.
\<close>

definition in_range :: "nat \<Rightarrow> nat \<Rightarrow> char \<Rightarrow> bool" where
  "in_range lo hi c = (lo \<le> (of_char c :: nat) \<and> (of_char c :: nat) \<le> hi)"

text \<open>\<^verbatim>\<open>str.isdecimal\<close>: the digits 0-9.\<close>

definition py_isdecimal :: "char \<Rightarrow> bool" where
  "py_isdecimal c = in_range 48 57 c"

text \<open>\<^verbatim>\<open>str.isdigit\<close> on one character: the decimals and the superscripts 1, 2, 3.\<close>

definition py_isdigit :: "char \<Rightarrow> bool" where
  "py_isdigit c = (in_range 48 57 c \<or> in_range 178 179 c \<or> in_range 185 185 c)"

text \<open>\<^verbatim>\<open>str.isalnum\<close> on one character.\<close>

definition py_isalnum :: "char \<Rightarrow> bool" where
  "py_isalnum c =
     (in_range 48 57 c \<or> in_range 65 90 c \<or> in_range 97 122 c \<or> in_range 170 170 c \<or>
      in_range 178 179 c \<or> in_range 181 181 c \<or> in_range 185 186 c \<or> in_range 188 190 c \<or>
      in_range 192 214 c \<or> in_range 216 246 c \<or> in_range 248 255 c)"

text \<open>The characters that \<^verbatim>\<open>str.strip()\<close> removes.\<close>

definition py_isspace :: "char \<Rightarrow> bool" where
  "py_isspace c = (in_range 9 13 c \<or> in_range 28 32 c \<or> in_range 133 133 c \<or> in_range 160 160 c)"

text \<open>\<^verbatim>\<open>str.lower\<close>, character by character.\<close>

definition py_lower_char :: "char \<Rightarrow> char" where
  "py_lower_char c =
     (if in_range 65 90 c \<or> in_range 192 214 c \<or> in_range 216 222 c
      then char_of ((of_char c :: nat) + 32) else c)"

definition py_lower :: "string \<Rightarrow> string" where
  "py_lower s = map py_lower_char s"

definition py_strip :: "string \<Rightarrow> string" where
  "py_strip s = rev (dropWhile py_isspace (rev (dropWhile py_isspace s)))"

text \<open>\<^verbatim>\<open>s.isdigit()\<close> on a string: not empty and every character a digit.\<close>

definition py_isdigit_str :: "string \<Rightarrow> bool" where
  "py_isdigit_str s = (s \<noteq> [] \<and> list_all py_isdigit s)"

text \<open>\<^verbatim>\<open>str(n)\<close> for an integer: decimal digits, a minus sign for a negative number.\<close>

definition digit_char :: "nat \<Rightarrow> char" where
  "digit_char d = char_of (48 + d)"

fun str_nat :: "nat \<Rightarrow> string" where
  "str_nat n = (if n < 10 then [digit_char n] else str_nat (n div 10) @ [digit_char (n mod 10)])"

declare str_nat.simps [simp del]

definition str_int :: "int \<Rightarrow> string" where
  "str_int i = (if i < 0 then CHR ''-'' # str_nat (nat (- i)) else str_nat (nat i))"

text \<open>The value of a string of decimal digits.\<close>

definition digit_val :: "char \<Rightarrow> nat" where
  "digit_val c = (of_char c :: nat) - 48"

definition dec_value :: "string \<Rightarrow> nat" where
  "dec_value s = foldl (\<lambda>a c. 10 * a + digit_val c) 0 s"

text \<open>
  \<^verbatim>\<open>int(s)\<close> for a string that passed \<^verbatim>\<open>s.isdigit()\<close>. Such a string has no sign, blank or
  underscore, so the conversion succeeds exactly when every character is a decimal digit;
  on a superscript digit it raises \<^verbatim>\<open>ValueError\<close>, which is \<open>None\<close> here. The
  interpreter's configurable limit on the number of digits is not modelled.
\<close>

definition py_int :: "string \<Rightarrow> nat option" where
  "py_int s = (if s \<noteq> [] \<and> list_all py_isdecimal s then Some (dec_value s) else None)"

text \<open>\<^verbatim>\<open>s.split(sep)\<close> with a one-character separator.\<close>

fun py_split :: "char \<Rightarrow> string \<Rightarrow> string list" where
  "py_split sep [] = [[]]"
| "py_split sep (c # cs) =
     (if c = sep then [] # py_split sep cs
      else (case py_split sep cs of [] \<Rightarrow> [[c]] | p # ps \<Rightarrow> (c # p) # ps))"

text \<open>\<^verbatim>\<open>sub in s\<close> on strings.\<close>

fun py_in :: "string \<Rightarrow> string \<Rightarrow> bool" where
  "py_in sub [] = (sub = [])"
| "py_in sub (c # cs) = (prefix sub (c # cs) \<or> py_in sub cs)"

section \<open>The name of a moved file (lines 91 to 95)\<close>

text \<open>
  \<^verbatim>\<open>"".join(c for c in factura_number if c.isalnum() or c in ('-', '_', ' '))\<close>
\<close>

definition keep_char :: "char \<Rightarrow> bool" where
  "keep_char c = (py_isalnum c \<or> c = CHR ''-'' \<or> c = CHR ''_'' \<or> c = CHR '' '')"

text \<open>
  \<^verbatim>\<open>re.sub(r'(Facturas)(Number)', r'\1 \2', clean_name)\<close>: the pattern has no
  metacharacter, so a match is an occurrence of the fourteen characters; matches are
  taken from the left and do not overlap.
\<close>

fun re_sub_facturas :: "string \<Rightarrow> string" where
  "re_sub_facturas [] = []"
| "re_sub_facturas (c # cs) =
     (if prefix ''FacturasNumber'' (c # cs)
      then ''Facturas Number'' @ re_sub_facturas (drop 14 (c # cs))
      else c # re_sub_facturas cs)"

text \<open>\<^verbatim>\<open>int(time.time())\<close>, the clock counted in milliseconds: truncation towards zero.\<close>

definition int_of_time :: "int \<Rightarrow> int" where
  "int_of_time t = (if t < 0 then - ((- t) div 1000) else t div 1000)"

definition clean_name_of :: "string \<Rightarrow> int \<Rightarrow> string" where
  "clean_name_of factura_number now =
     (let clean_name = py_strip (filter keep_char factura_number);
          clean_name = re_sub_facturas clean_name
      in if clean_name = [] then ''documento_'' @ str_int (int_of_time now) else clean_name)"

section \<open>Paths\<close>

text \<open>
  \<^verbatim>\<open>pathlib\<close> on the last component of a path: \<^verbatim>\<open>suffix\<close> starts at the last dot when that
  dot is neither the first nor the last character, \<^verbatim>\<open>stem\<close> is what is before it, and
  \<^verbatim>\<open>with_stem(s)\<close> is \<^verbatim>\<open>with_name(s + suffix)\<close>. \<^verbatim>\<open>with_name\<close> raises only for an empty name
  or one with a path separator; the stems built in line 103 contain an underscore and no
  separator, so that raise has no branch here.
\<close>

definition py_rfind :: "char \<Rightarrow> string \<Rightarrow> int" where
  "py_rfind c s =
     (if c \<in> set s then int (length s) - 1 - int (length (takeWhile (\<lambda>x. x \<noteq> c) (rev s)))
      else - 1)"

definition path_suffix :: "string \<Rightarrow> string" where
  "path_suffix name =
     (let i = py_rfind CHR ''.'' name
      in if 0 < i \<and> i < int (length name) - 1 then drop (nat i) name else [])"

definition path_stem :: "string \<Rightarrow> string" where
  "path_stem name =
     (let i = py_rfind CHR ''.'' name
      in if 0 < i \<and> i < int (length name) - 1 then take (nat i) name else name)"

definition with_stem :: "string \<Rightarrow> string \<Rightarrow> string" where
  "with_stem name stem = stem @ path_suffix name"

section \<open>The world the script runs in\<close>

text \<open>
  A directory is the list of its entries, in the order \<^verbatim>\<open>iterdir\<close> yields them. An entry
  carries what the script can observe of it: its name, whether it is a regular file, its
  modification time, and whether \<^verbatim>\<open>is_file()\<close>/\<^verbatim>\<open>stat()\<close> or \<^verbatim>\<open>shutil.move\<close> on it raise
  (a file still held open by the browser, say). \<open>e_data\<close> identifies the content.
  Times are counted in milliseconds, which represents every constant of the source
  exactly (0.015 s, 0.2 s, 0.25 s, 0.5 s, 2 s, 15 s, 20 s).
\<close>

record entry =
  e_name :: string
  e_is_file :: bool
  e_mtime :: int
  e_stat_error :: bool
  e_move_error :: bool
  e_data :: nat

datatype exn =
    NoSuchElementException | TimeoutException | WebDriverException
  | OSError | EOFError | KeyboardInterrupt

text \<open>\<^verbatim>\<open>except Exception\<close> catches everything but \<^verbatim>\<open>KeyboardInterrupt\<close>.\<close>

definition is_Exception :: "exn \<Rightarrow> bool" where
  "is_Exception e = (e \<noteq> KeyboardInterrupt)"

datatype file_type = PDF | XML

text \<open>
  What the operator and the browser see of a run. The prints that no property below
  speaks about are left out.
\<close>

datatype event =
    Saved file_type string
  | OrganizeError
  | RowStart nat
  | Clicked string
  | MultiFilePrompt nat
  | LoginPrompt
  | ChoicePrompt
  | NextClicked nat
  | PageStart nat
  | Summary nat
  | Interrupted
  | UnexpectedError
  | BrowserClosed

text \<open>One answer of the operator to \<^verbatim>\<open>input()\<close>: a line, or Ctrl-C.\<close>

datatype key = Line string | CtrlC

record world =
  w_time :: int
  w_steps :: nat
  w_downloads :: "entry list"
  w_pdf :: "entry list"
  w_xml :: "entry list"
  w_stdin :: "key list"
  w_trace :: "event list"
  w_driver :: bool

definition emit :: "event \<Rightarrow> world \<Rightarrow> world" where
  "emit ev w = w\<lparr>w_trace := w_trace w @ [ev]\<rparr>"

definition path_exists :: "entry list \<Rightarrow> string \<Rightarrow> bool" where
  "path_exists dir name = (name \<in> set (map e_name dir))"

section \<open>The file organizer (\<^verbatim>\<open>move_downloaded_files\<close>, lines 66 to 115)\<close>

text \<open>Lines 73 to 76: the loop that collects \<^verbatim>\<open>recent_files\<close>.\<close>

fun scan_recent :: "int \<Rightarrow> entry list \<Rightarrow> entry list \<Rightarrow> exn + entry list" where
  "scan_recent now [] recent_files = Inr recent_files"
| "scan_recent now (file_path # rest) recent_files =
     (if e_stat_error file_path then Inl OSError
      else if e_is_file file_path \<and> now - e_mtime file_path < 20000
      then (if py_lower (path_suffix (e_name file_path)) \<in> set [''.pdf'', ''.xml'']
            then scan_recent now rest (recent_files @ [file_path])
            else scan_recent now rest recent_files)
      else scan_recent now rest recent_files)"

text \<open>Lines 100 to 104: the loop that looks for a free name.\<close>

function dup_loop :: "entry list \<Rightarrow> string \<Rightarrow> string \<Rightarrow> nat \<Rightarrow> string" where
  "dup_loop dir original_dest dest_path counter =
     (if path_exists dir dest_path
      then dup_loop dir original_dest
             (with_stem original_dest (path_stem original_dest @ ''_'' @ str_nat counter))
             (counter + 1)
      else dest_path)"
  by pat_completeness auto
termination
proof (relation "measure (\<lambda>(dir, original_dest, dest_path, counter).
          card {k. counter \<le> k \<and>
                   path_exists dir (with_stem original_dest (path_stem original_dest @ ''_'' @ str_nat k))}
          + (if path_exists dir dest_path then 1 else 0))", goal_cases)
  case 1
  show ?case by simp
next
  case (2 dir original_dest dest_path counter)
  define cand where "cand k = with_stem original_dest (path_stem original_dest @ ''_'' @ str_nat k)" for k
  have dv: "dec_value (xs @ [c]) = 10 * dec_value xs + digit_val c" for xs c
    by (simp add: dec_value_def)
  have dd: "digit_val (digit_char d) = d" if "d < 10" for d
    using that by (simp add: digit_val_def digit_char_def)
  have rt: "dec_value (str_nat n) = n" for n
  proof (induction n rule: str_nat.induct)
    case (1 n)
    show ?case
    proof (cases "n < 10")
      case True
      then show ?thesis using dd[of n] by (subst str_nat.simps) (simp add: dec_value_def)
    next
      case False
      then have "str_nat n = str_nat (n div 10) @ [digit_char (n mod 10)]"
        by (subst str_nat.simps) simp
      then show ?thesis using 1[OF False] dv dd[of "n mod 10"] by simp
    qed
  qed
  have inj: "inj cand"
  proof (rule injI)
    fix j k assume "cand j = cand k"
    then have "str_nat j = str_nat k" by (simp add: cand_def with_stem_def)
    then have "dec_value (str_nat j) = dec_value (str_nat k)" by simp
    then show "j = k" by (simp only: rt)
  qed
  have fin: "finite {k. path_exists dir (cand k)}"
  proof -
    have "finite (cand -` set (map e_name dir))"
      using inj by (intro finite_vimageI) simp_all
    then show ?thesis by (simp add: path_exists_def vimage_def)
  qed
  let ?A = "{k. counter \<le> k \<and> path_exists dir (cand k)}"
  let ?B = "{k. counter + 1 \<le> k \<and> path_exists dir (cand k)}"
  have split: "?A = ?B \<union> (if path_exists dir (cand counter) then {counter} else {})"
    by (auto simp: Suc_le_eq order_le_less)
  have "card ?B + (if path_exists dir (cand counter) then 1 else 0) = card ?A"
  proof (cases "path_exists dir (cand counter)")
    case True
    then have "?A = insert counter ?B" using split by auto
    moreover have "counter \<notin> ?B" by simp
    moreover have "finite ?B" using fin by simp
    ultimately show ?thesis using True by simp
  next
    case False
    then show ?thesis using split by simp
  qed
  then show ?case using 2 by (simp add: cand_def)
qed

declare dup_loop.simps [simp del]

definition dest_dir :: "file_type \<Rightarrow> world \<Rightarrow> entry list" where
  "dest_dir file_type w = (case file_type of PDF \<Rightarrow> w_pdf w | XML \<Rightarrow> w_xml w)"

definition put_dest_dir :: "file_type \<Rightarrow> entry list \<Rightarrow> world \<Rightarrow> world" where
  "put_dest_dir file_type dir w =
     (case file_type of PDF \<Rightarrow> w\<lparr>w_pdf := dir\<rparr> | XML \<Rightarrow> w\<lparr>w_xml := dir\<rparr>)"

text \<open>
  \<^verbatim>\<open>shutil.move(src, dst)\<close> to a path that does not exist: the entry leaves the downloads
  directory and appears under its new name in the category directory. It raises when
  the source is gone or cannot be moved, and then changes nothing.
\<close>

definition shutil_move :: "entry \<Rightarrow> file_type \<Rightarrow> string \<Rightarrow> world \<Rightarrow> exn option \<times> world" where
  "shutil_move file_path file_type dest_path w =
     (if e_move_error file_path \<or> \<not> path_exists (w_downloads w) (e_name file_path)
      then (Some OSError, w)
      else (None,
            put_dest_dir file_type (dest_dir file_type w @ [file_path\<lparr>e_name := dest_path\<rparr>])
              (w\<lparr>w_downloads := filter (\<lambda>x. e_name x \<noteq> e_name file_path) (w_downloads w)\<rparr>)))"

text \<open>Lines 90 to 109, for one file whose category is known.\<close>

definition move_one :: "string \<Rightarrow> file_type \<Rightarrow> entry \<Rightarrow> world \<Rightarrow> (exn + string) \<times> world" where
  "move_one factura_number file_type file_path w =
     (let clean_name = clean_name_of factura_number (w_time w);
          dest_path = clean_name @ py_lower (path_suffix (e_name file_path));
          dest_path = dup_loop (dest_dir file_type w) dest_path dest_path 1
      in case shutil_move file_path file_type dest_path w of
           (Some e, w') \<Rightarrow> (Inl e, w')
         | (None, w') \<Rightarrow> (Inr dest_path, emit (Saved file_type dest_path) w'))"

text \<open>Lines 78 to 109: the loop over \<^verbatim>\<open>recent_files\<close>.\<close>

fun move_files ::
  "string \<Rightarrow> entry list \<Rightarrow> (file_type \<times> string) list \<Rightarrow> world
   \<Rightarrow> (exn + (file_type \<times> string) list) \<times> world" where
  "move_files factura_number [] moved_files w = (Inr moved_files, w)"
| "move_files factura_number (file_path # rest) moved_files w =
     (if py_lower (path_suffix (e_name file_path)) = ''.pdf''
      then (case move_one factura_number PDF file_path w of
              (Inl e, w') \<Rightarrow> (Inl e, w')
            | (Inr dest_path, w') \<Rightarrow>
                move_files factura_number rest (moved_files @ [(PDF, dest_path)]) w')
      else if py_lower (path_suffix (e_name file_path)) = ''.xml''
      then (case move_one factura_number XML file_path w of
              (Inl e, w') \<Rightarrow> (Inl e, w')
            | (Inr dest_path, w') \<Rightarrow>
                move_files factura_number rest (moved_files @ [(XML, dest_path)]) w')
      else move_files factura_number rest moved_files w)"

text \<open>The whole method, with its \<^verbatim>\<open>except Exception\<close> that returns the empty list.\<close>

definition move_downloaded_files :: "string \<Rightarrow> world \<Rightarrow> (file_type \<times> string) list \<times> world" where
  "move_downloaded_files factura_number w =
     (case scan_recent (w_time w) (w_downloads w) [] of
        Inl e \<Rightarrow> ([], emit OrganizeError w)
      | Inr recent_files \<Rightarrow>
          (case move_files factura_number recent_files [] w of
             (Inl e, w') \<Rightarrow> ([], emit OrganizeError w')
           | (Inr moved_files, w') \<Rightarrow> (moved_files, w')))"

section \<open>The browser, the clock and the operator\<close>

text \<open>
  The script does not control the browser: what a driver call answers, what the download
  manager does to the downloads directory and how long a call takes are given by an
  environment \<open>E\<close>, asked with the number of interactions made so far, so that it may
  answer differently every time. An element handle carries what the calls on it answer.
  Between two interactions the downloads directory is changed by the script only.
\<close>

record element =
  el_actionable :: "exn + bool"
  el_click :: "exn option"
  el_cells :: "exn + string list"

record button =
  b_class :: "exn + string option"
  b_click :: "exn option"

record env =
  env_mkdir :: "exn option"
  env_setup :: "exn option"
  env_get :: "exn option"
  env_quit :: "exn option"
  env_find :: "nat \<Rightarrow> string \<Rightarrow> exn + element"
  env_links :: "nat \<Rightarrow> exn + string option list"
  env_next :: "nat \<Rightarrow> exn + button list"
  env_files :: "nat \<Rightarrow> entry list \<Rightarrow> entry list"
  env_delay :: "nat \<Rightarrow> nat"

text \<open>
  One interaction that lasts at least \<open>d\<close> milliseconds: the clock advances by \<open>d\<close> and
  by what the environment adds, and the download manager acts on the directory.
  \<^verbatim>\<open>time.sleep(s)\<close> is an interaction of \<open>1000 s\<close> milliseconds, a driver call one of 0.
\<close>

definition interact :: "env \<Rightarrow> nat \<Rightarrow> world \<Rightarrow> world" where
  "interact E d w =
     w\<lparr>w_time := w_time w + int d + int (env_delay E (w_steps w)),
       w_downloads := env_files E (w_steps w) (w_downloads w),
       w_steps := Suc (w_steps w)\<rparr>"

definition sleep :: "env \<Rightarrow> nat \<Rightarrow> world \<Rightarrow> world" where
  "sleep E ms w = interact E ms w"

text \<open>
  \<^verbatim>\<open>input(prompt)\<close>: the prompt is shown, then the next answer of the operator is read;
  at the end of the input it raises \<^verbatim>\<open>EOFError\<close>.
\<close>

definition py_input :: "event \<Rightarrow> world \<Rightarrow> (exn + string) \<times> world" where
  "py_input prompt w =
     (case w_stdin (emit prompt w) of
        [] \<Rightarrow> (Inl EOFError, emit prompt w)
      | Line s # rest \<Rightarrow> (Inr s, (emit prompt w)\<lparr>w_stdin := rest\<rparr>)
      | CtrlC # rest \<Rightarrow> (Inl KeyboardInterrupt, (emit prompt w)\<lparr>w_stdin := rest\<rparr>))"

section \<open>\<^verbatim>\<open>wait_for_download_complete\<close> (lines 54 to 64)\<close>

text \<open>\<^verbatim>\<open>list(self.temp_dir.glob("*.crdownload"))\<close>\<close>

definition glob_crdownload :: "entry list \<Rightarrow> entry list" where
  "glob_crdownload dir = filter (\<lambda>e. suffix ''.crdownload'' (e_name e)) dir"

function wait_loop :: "env \<Rightarrow> int \<Rightarrow> int \<Rightarrow> world \<Rightarrow> bool \<times> world" where
  "wait_loop E start_time timeout w =
     (if w_time w - start_time < timeout
      then (if glob_crdownload (w_downloads w) = []
            then (True, sleep E 15 w)
            else wait_loop E start_time timeout (sleep E 250 w))
      else (False, w))"
  by pat_completeness auto
termination
  by (relation "measure (\<lambda>(E, start_time, timeout, w). nat (start_time + timeout - w_time w))")
     (auto simp: sleep_def interact_def)

declare wait_loop.simps [simp del]

definition wait_for_download_complete :: "env \<Rightarrow> int \<Rightarrow> world \<Rightarrow> bool \<times> world" where
  "wait_for_download_complete E timeout w = wait_loop E (w_time w) timeout w"

section \<open>\<^verbatim>\<open>download_document_by_index\<close> (lines 117 to 198)\<close>

definition find_element :: "env \<Rightarrow> string \<Rightarrow> world \<Rightarrow> (exn + element) \<times> world" where
  "find_element E link_id w = (env_find E (w_steps w) link_id, interact E 0 w)"

definition xml_link_id :: "nat \<Rightarrow> string" where
  "xml_link_id index = ''frmPrincipal:tablaCompRecibidos:'' @ str_nat index @ '':lnkXml''"

definition pdf_link_id :: "nat \<Rightarrow> string" where
  "pdf_link_id index = ''frmPrincipal:tablaCompRecibidos:'' @ str_nat index @ '':lnkPdf''"

text \<open>
  Lines 126 to 141: the invoice number of the row. An exception that
  \<^verbatim>\<open>except Exception\<close> does not catch leaves the method; it is the \<open>Inl\<close> result.
\<close>

definition invoice_number :: "env \<Rightarrow> nat \<Rightarrow> world \<Rightarrow> (exn + string) \<times> world" where
  "invoice_number E index w =
     (let factura_number = ''documento_'' @ str_nat index
      in case find_element E (xml_link_id index) w of
           (Inl e, w') \<Rightarrow> (if is_Exception e then Inr factura_number else Inl e, w')
         | (Inr xml_link, w') \<Rightarrow>
             (case el_cells xml_link of
                Inl e \<Rightarrow> (if is_Exception e then Inr factura_number else Inl e, w')
              | Inr cells \<Rightarrow>
                  (if 3 \<le> length cells
                   then (let factura_text = py_strip (cells ! 2)
                         in if factura_text \<noteq> [] \<and> 0 < length factura_text
                            then (Inr factura_text, w')
                            else (Inr factura_number, w'))
                   else (Inr factura_number, w'))))"

text \<open>
  Lines 148 to 162 and 169 to 183: one download. The result says whether the file type
  is appended to \<^verbatim>\<open>downloads_successful\<close>.
\<close>

definition trigger :: "env \<Rightarrow> string \<Rightarrow> world \<Rightarrow> (exn + bool) \<times> world" where
  "trigger E link_id w =
     (case find_element E link_id w of
        (Inl e, w1) \<Rightarrow> (if is_Exception e then Inr False else Inl e, w1)
      | (Inr link, w1) \<Rightarrow>
          (case el_actionable link of
             Inl e \<Rightarrow> (if is_Exception e then Inr False else Inl e, w1)
           | Inr False \<Rightarrow> (Inr False, w1)
           | Inr True \<Rightarrow>
               (let w2 = emit (Clicked link_id) (interact E 0 w1)
                in case el_click link of
                     Some e \<Rightarrow> (if is_Exception e then Inr False else Inl e, w2)
                   | None \<Rightarrow>
                       (case wait_for_download_complete E 15000 w2 of
                          (ok, w3) \<Rightarrow> (Inr ok, w3)))))"

text \<open>
  The method returns a truth value; the model returns beside it the two lists the value
  is computed from, \<^verbatim>\<open>downloads_successful\<close> and \<^verbatim>\<open>moved_files\<close>.
\<close>

record row_result =
  ret :: bool
  downloads_successful :: "file_type list"
  moved_files :: "(file_type \<times> string) list"

definition download_document_by_index :: "env \<Rightarrow> nat \<Rightarrow> world \<Rightarrow> (exn + row_result) \<times> world" where
  "download_document_by_index E index w =
     (case invoice_number E index w of
        (Inl e, w1) \<Rightarrow> (Inl e, w1)
      | (Inr factura_number, w1) \<Rightarrow>
     (case trigger E (xml_link_id index) (emit (RowStart index) w1) of
        (Inl e, w2) \<Rightarrow> (Inl e, w2)
      | (Inr xml_ok, w2) \<Rightarrow>
     (case trigger E (pdf_link_id index) (sleep E 500 w2) of
        (Inl e, w3) \<Rightarrow> (Inl e, w3)
      | (Inr pdf_ok, w3) \<Rightarrow>
     (let successful = (if xml_ok then [XML] else []) @ (if pdf_ok then [PDF] else [])
      in case (if index = 0 then py_input (MultiFilePrompt index) w3 else (Inr [], w3)) of
           (Inl e, w4) \<Rightarrow>
             (if is_Exception e
              then Inr \<lparr>ret = False, downloads_successful = successful, moved_files = []\<rparr>
              else Inl e, w4)
         | (Inr answer, w4) \<Rightarrow>
             (if successful \<noteq> []
              then (case move_downloaded_files factura_number (sleep E 500 w4) of
                      (moved, w5) \<Rightarrow>
                        (Inr \<lparr>ret = (0 < length moved), downloads_successful = successful,
                              moved_files = moved\<rparr>, w5))
              else (Inr \<lparr>ret = False, downloads_successful = successful, moved_files = []\<rparr>,
                    w4))))))"

section \<open>\<^verbatim>\<open>download_current_page\<close> (lines 200 to 244)\<close>

text \<open>
  Lines 213 to 221, for one anchor: \<open>None\<close> when nothing is appended. A missing \<^verbatim>\<open>id\<close>
  attribute is \<open>None\<close> as the argument; \<^verbatim>\<open>link_id.split\<close> then raises inside the \<^verbatim>\<open>try\<close>, as
  \<^verbatim>\<open>int\<close> does on a superscript digit, and the bare \<^verbatim>\<open>except\<close> continues with the next anchor.
\<close>

definition index_of_id :: "string option \<Rightarrow> nat option" where
  "index_of_id link_id =
     (case link_id of
        None \<Rightarrow> None
      | Some s \<Rightarrow>
          (let parts = py_split CHR '':'' s
           in if 3 \<le> length parts \<and> py_isdigit_str (parts ! 2)
              then py_int (parts ! 2)
              else None))"

fun extract_indices :: "string option list \<Rightarrow> nat list \<Rightarrow> nat list" where
  "extract_indices [] document_indices = document_indices"
| "extract_indices (link_id # xml_links) document_indices =
     (case index_of_id link_id of
        None \<Rightarrow> extract_indices xml_links document_indices
      | Some index \<Rightarrow> extract_indices xml_links (document_indices @ [index]))"

text \<open>Lines 230 to 234: the loop over the rows.\<close>

fun download_rows :: "env \<Rightarrow> nat list \<Rightarrow> nat \<Rightarrow> world \<Rightarrow> (exn + nat) \<times> world" where
  "download_rows E [] successful w = (Inr successful, w)"
| "download_rows E (doc_index # rest) successful w =
     (case download_document_by_index E doc_index w of
        (Inl e, w') \<Rightarrow> (Inl e, w')
      | (Inr r, w') \<Rightarrow>
          download_rows E rest (if ret r then successful + 1 else successful) (sleep E 200 w'))"

text \<open>
  Lines 204 to 213 are one interaction: it answers the \<^verbatim>\<open>id\<close> attributes of the anchors in
  document order, or the exception that the wait, the search or \<^verbatim>\<open>get_attribute\<close> raised.
\<close>

definition download_current_page :: "env \<Rightarrow> world \<Rightarrow> (exn + bool) \<times> world" where
  "download_current_page E w =
     (case env_links E (w_steps w) of
        Inl e \<Rightarrow> (if is_Exception e then Inr False else Inl e, interact E 0 w)
      | Inr xml_links \<Rightarrow>
          (let document_indices = extract_indices xml_links [];
               num_documents = length document_indices
           in if num_documents = 0 then (Inr False, interact E 0 w)
              else (case download_rows E document_indices 0 (interact E 0 w) of
                      (Inl e, w') \<Rightarrow> (Inl e, w')
                    | (Inr successful, w') \<Rightarrow> (Inr (0 < successful), w'))))"

section \<open>\<^verbatim>\<open>go_to_next_page\<close> (lines 246 to 266)\<close>

text \<open>Lines 252 to 259: the loop over the buttons; \<open>k\<close> is the position of the button.\<close>

fun try_buttons :: "env \<Rightarrow> button list \<Rightarrow> nat \<Rightarrow> world \<Rightarrow> (exn + bool) \<times> world" where
  "try_buttons E [] k w = (Inr False, w)"
| "try_buttons E (next_button # rest) k w =
     (case b_class next_button of
        Inl e \<Rightarrow> (Inl e, w)
      | Inr attr \<Rightarrow>
          (let classes = (case attr of None \<Rightarrow> [] | Some s \<Rightarrow> s)
           in if \<not> py_in ''ui-state-disabled'' classes
              then (case b_click next_button of
                      Some e \<Rightarrow> (Inl e, emit (NextClicked k) (interact E 0 w))
                    | None \<Rightarrow> (Inr True, sleep E 2000 (emit (NextClicked k) (interact E 0 w))))
              else try_buttons E rest (k + 1) w))"

definition go_to_next_page :: "env \<Rightarrow> world \<Rightarrow> (exn + bool) \<times> world" where
  "go_to_next_page E w =
     (case (case env_next E (w_steps w) of
              Inl e \<Rightarrow> (Inl e, interact E 0 w)
            | Inr next_buttons \<Rightarrow> try_buttons E next_buttons 0 (interact E 0 w)) of
        (Inl e, w') \<Rightarrow> (if is_Exception e then Inr False else Inl e, w')
      | (Inr b, w') \<Rightarrow> (Inr b, w'))"

section \<open>\<^verbatim>\<open>run\<close> (lines 268 to 333)\<close>

text \<open>
  Lines 287 to 316: the loop over the pages. It ends when the operator answers \<^verbatim>\<open>n\<close> or
  something else than \<^verbatim>\<open>y\<close> and \<^verbatim>\<open>r\<close>, when there is no next page, or with an exception;
  every turn reads one answer, so it ends with the operator's input at the latest.
  The result is \<^verbatim>\<open>page_count\<close>.
\<close>

function run_loop :: "env \<Rightarrow> nat \<Rightarrow> nat \<Rightarrow> world \<Rightarrow> (exn + nat) \<times> world" where
  "run_loop E page_count total_success w =
     (case download_current_page E (emit (PageStart (page_count + 1)) w) of
        (Inl e, w1) \<Rightarrow> (Inl e, w1)
      | (Inr ok, w1) \<Rightarrow>
          (case py_input ChoicePrompt w1 of
             (Inl e, w2) \<Rightarrow> (Inl e, w2)
           | (Inr line, w2) \<Rightarrow>
               (let choice = py_strip (py_lower line)
                in if choice = ''n'' then (Inr (page_count + 1), w2)
                   else if choice = ''r''
                   then run_loop E (page_count + 1)
                          (if ok then total_success + 1 else total_success) w2
                   else if choice = ''y''
                   then (case go_to_next_page E w2 of
                           (Inl e, w3) \<Rightarrow> (Inl e, w3)
                         | (Inr False, w3) \<Rightarrow> (Inr (page_count + 1), w3)
                         | (Inr True, w3) \<Rightarrow>
                             run_loop E (page_count + 1)
                               (if ok then total_success + 1 else total_success) w3)
                   else (Inr (page_count + 1), w2))))"
  by pat_completeness auto
termination
proof -
  have i_in: "w_stdin (interact E d w) = w_stdin w" for E d w
    by (simp add: interact_def)
  have e_in: "w_stdin (emit ev w) = w_stdin w" for ev w
    by (simp add: emit_def)
  have wl: "w_stdin (snd (wait_loop E s t w)) = w_stdin w" for E s t w
  proof (induction E s t w rule: wait_loop.induct)
    case (1 E s t w)
    show ?case
      using 1 by (subst wait_loop.simps) (simp add: sleep_def i_in)
  qed
  have wf: "w_stdin (snd (wait_for_download_complete E t w)) = w_stdin w" for E t w
    by (simp add: wait_for_download_complete_def wl)
  have tr: "w_stdin (snd (trigger E l w)) = w_stdin w" for E l w
    by (simp add: trigger_def find_element_def Let_def split_beta i_in e_in wf
        split: sum.split option.split bool.split)
  have iv: "w_stdin (snd (invoice_number E i w)) = w_stdin w" for E i w
    by (simp add: invoice_number_def find_element_def Let_def split_beta i_in split: sum.split)
  have pd: "w_stdin (put_dest_dir t d w) = w_stdin w" for t d w
    by (cases t) (simp_all add: put_dest_dir_def)
  have mo: "w_stdin (snd (move_one f t e w)) = w_stdin w" for f t e w
    by (simp add: move_one_def shutil_move_def Let_def split_beta e_in pd split: option.split)
  have mf: "w_stdin (snd (move_files f es m w)) = w_stdin w" for f es m w
  proof (induction es arbitrary: m w)
    case Nil
    show ?case by simp
  next
    case (Cons e es)
    show ?case
      using mo[of f PDF e w] mo[of f XML e w] Cons
      by (simp add: split_beta split: sum.split)
  qed
  have md: "w_stdin (snd (move_downloaded_files f w)) = w_stdin w" for f w
    using mf[of f _ "[]" w]
    by (simp add: move_downloaded_files_def e_in split_beta split: sum.split)
  have inp: "w_stdin (snd (py_input p w)) = tl (w_stdin w)" for p w
    by (simp add: py_input_def e_in split: list.split key.split)
  have inp_lt: "py_input p w = (Inr s, w') \<Longrightarrow> length (w_stdin w') < length (w_stdin w)" for p w s w'
    by (auto simp: py_input_def e_in split: list.splits key.splits)
  have dd: "length (w_stdin (snd (download_document_by_index E i w))) \<le> length (w_stdin w)" for E i w
    by (simp add: download_document_by_index_def Let_def split_beta iv tr md inp i_in e_in sleep_def
        split: sum.split)
  have dr: "length (w_stdin (snd (download_rows E is n w))) \<le> length (w_stdin w)" for E "is" n w
  proof (induction "is" arbitrary: n w)
    case Nil
    show ?case by simp
  next
    case (Cons i "is")
    obtain r w' where a: "download_document_by_index E i w = (r, w')" by force
    have b: "length (w_stdin w') \<le> length (w_stdin w)" using dd[of E i w] a by simp
    show ?case
    proof (cases r)
      case (Inl e)
      then show ?thesis using a b by simp
    next
      case (Inr rr)
      have "length (w_stdin (snd (download_rows E is (if ret rr then n + 1 else n) (sleep E 200 w'))))
            \<le> length (w_stdin (sleep E 200 w'))" by (rule Cons)
      then show ?thesis using a b Inr by (simp add: sleep_def i_in)
    qed
  qed
  have dr0: "length (w_stdin (snd (download_rows E is 0 (interact E 0 w)))) \<le> length (w_stdin w)" for E "is" w
    using dr[of E "is" 0 "interact E 0 w"] by (simp add: i_in)
  have dc: "length (w_stdin (snd (download_current_page E w))) \<le> length (w_stdin w)" for E w
    by (simp add: download_current_page_def Let_def split_beta i_in dr0 split: sum.split)
  have tb: "w_stdin (snd (try_buttons E bs k w)) = w_stdin w" for E bs k w
    by (induction bs arbitrary: k)
       (simp_all add: Let_def sleep_def i_in e_in split: sum.split option.split)
  have gn: "w_stdin (snd (go_to_next_page E w)) = w_stdin w" for E w
    by (simp add: go_to_next_page_def split_beta i_in tb split: sum.split)
  show ?thesis
  proof (relation "measure (\<lambda>(E, page_count, total_success, w). length (w_stdin w))", goal_cases)
    case 1
    show ?case by simp
  next
    case (2 E page_count total_success w x1 w1 ok x2 w2 line choice)
    have "w1 = snd (download_current_page E (emit (PageStart (page_count + 1)) w))"
      using arg_cong[OF 2(1), of snd] by simp
    then have "length (w_stdin w1) \<le> length (w_stdin w)"
      using dc[of E "emit (PageStart (page_count + 1)) w"] by (simp add: e_in)
    moreover have "length (w_stdin w2) < length (w_stdin w1)"
      using inp_lt[of ChoicePrompt w1 line w2] 2(3)[symmetric] 2(4) by simp
    ultimately show ?case by simp
  next
    case (3 E page_count total_success w x1 w1 ok x2 w2 line choice x3 w3 b)
    have "w1 = snd (download_current_page E (emit (PageStart (page_count + 1)) w))"
      using arg_cong[OF 3(1), of snd] by simp
    then have "length (w_stdin w1) \<le> length (w_stdin w)"
      using dc[of E "emit (PageStart (page_count + 1)) w"] by (simp add: e_in)
    moreover have "length (w_stdin w2) < length (w_stdin w1)"
      using inp_lt[of ChoicePrompt w1 line w2] 3(3)[symmetric] 3(4) by simp
    moreover have "w3 = snd (go_to_next_page E w2)"
      using arg_cong[OF 3(9), of snd] by simp
    then have "w_stdin w3 = w_stdin w2"
      using gn[of E w2] by simp
    ultimately show ?case by simp
  qed
qed

declare run_loop.simps [simp del]

text \<open>Lines 271 to 324: the body of the \<^verbatim>\<open>try\<close>; the summary is its last statement.\<close>

definition run_body :: "env \<Rightarrow> world \<Rightarrow> (exn + unit) \<times> world" where
  "run_body E w =
     (case env_setup E of
        Some e \<Rightarrow> (Inl e, interact E 0 w)
      | None \<Rightarrow>
          (case env_get E of
             Some e \<Rightarrow> (Inl e, interact E 0 ((interact E 0 w)\<lparr>w_driver := True\<rparr>))
           | None \<Rightarrow>
               (case py_input LoginPrompt
                       (interact E 0 ((interact E 0 w)\<lparr>w_driver := True\<rparr>)) of
                  (Inl e, w1) \<Rightarrow> (Inl e, w1)
                | (Inr answer, w1) \<Rightarrow>
                    (case run_loop E 0 0 w1 of
                       (Inl e, w2) \<Rightarrow> (Inl e, w2)
                     | (Inr page_count, w2) \<Rightarrow> (Inr (), emit (Summary page_count) w2)))))"

text \<open>
  The two handlers and the \<^verbatim>\<open>finally\<close> block. The result is the exception that leaves
  \<^verbatim>\<open>run\<close>, if any.
\<close>

definition run :: "env \<Rightarrow> world \<Rightarrow> exn option \<times> world" where
  "run E w =
     (case run_body E w of
        (r, w1) \<Rightarrow>
          (let w2 = (case r of
                       Inl e \<Rightarrow>
                         (if e = KeyboardInterrupt then emit Interrupted w1
                          else if is_Exception e then emit UnexpectedError w1
                          else w1)
                     | Inr u \<Rightarrow> w1);
               pending = (case r of
                            Inl e \<Rightarrow>
                              (if e = KeyboardInterrupt \<or> is_Exception e then None else Some e)
                          | Inr u \<Rightarrow> None)
           in if w_driver w2
              then (case env_quit E of
                      Some e \<Rightarrow> (Some e, interact E 0 (emit BrowserClosed w2))
                    | None \<Rightarrow> (pending, interact E 0 (emit BrowserClosed w2)))
              else (pending, w2)))"

text \<open>
  Lines 337 to 341: the constructor creates the two directories and sets
  \<^verbatim>\<open>self.driver = None\<close>, then \<^verbatim>\<open>run\<close> is called. The result is the exit status of the
  process: 1 when an exception leaves the script.
\<close>

definition main :: "env \<Rightarrow> world \<Rightarrow> nat \<times> world" where
  "main E w =
     (case env_mkdir E of
        Some e \<Rightarrow> (1, w)
      | None \<Rightarrow>
          (case run E (w\<lparr>w_driver := False\<rparr>) of
             (None, w') \<Rightarrow> (0, w')
           | (Some e, w') \<Rightarrow> (1, w')))"

section \<open>Notions of the specification and sample worlds\<close>

text \<open>
  Following the specification's words, not the source: a control ``bears a class token''
  when the token is one of the words of its \<^verbatim>\<open>class\<close> attribute, the words being separated
  by blanks. The source tests for a substring instead (line 254).
\<close>

definition html_space :: "char \<Rightarrow> bool" where
  "html_space c = (c = CHR '' '' \<or> in_range 9 10 c \<or> in_range 12 13 c)"

fun spec_tokens_from :: "string \<Rightarrow> string \<Rightarrow> string list" where
  "spec_tokens_from cur [] = (if cur = [] then [] else [cur])"
| "spec_tokens_from cur (c # cs) =
     (if html_space c
      then (if cur = [] then spec_tokens_from [] cs else cur # spec_tokens_from [] cs)
      else spec_tokens_from (cur @ [c]) cs)"

definition spec_has_class_token :: "string option \<Rightarrow> string \<Rightarrow> bool" where
  "spec_has_class_token attr tok =
     (case attr of None \<Rightarrow> False | Some s \<Rightarrow> tok \<in> set (spec_tokens_from [] s))"

text \<open>An environment in which nothing is found and nothing happens, and an empty world.\<close>

definition quiet_env :: env where
  "quiet_env =
     \<lparr>env_mkdir = None, env_setup = None, env_get = None, env_quit = None,
      env_find = (\<lambda>k link_id. Inl NoSuchElementException),
      env_links = (\<lambda>k. Inr []),
      env_next = (\<lambda>k. Inr []),
      env_files = (\<lambda>k dir. dir),
      env_delay = (\<lambda>k. 0)\<rparr>"

definition empty_world :: world where
  "empty_world =
     \<lparr>w_time = 0, w_steps = 0, w_downloads = [], w_pdf = [], w_xml = [], w_stdin = [],
      w_trace = [], w_driver = False\<rparr>"

definition file_entry :: "string \<Rightarrow> int \<Rightarrow> nat \<Rightarrow> entry" where
  "file_entry name mtime d =
     \<lparr>e_name = name, e_is_file = True, e_mtime = mtime, e_stat_error = False,
      e_move_error = False, e_data = d\<rparr>"

text \<open>Two ``next page'' controls, the first one disabled.\<close>

definition next_buttons_sample :: "button list" where
  "next_buttons_sample =
     [\<lparr>b_class = Inr (Some ''ui-paginator-next ui-state-disabled''), b_click = None\<rparr>,
      \<lparr>b_class = Inr (Some ''ui-paginator-next''), b_click = None\<rparr>]"

definition paging_env :: env where
  "paging_env = quiet_env\<lparr>env_next := (\<lambda>k. Inr next_buttons_sample)\<rparr>"

section \<open>Properties of the file name\<close>

subsection \<open>The label-spacing substitution\<close>

lemma pat_nth: "0 < k \<Longrightarrow> k < 14 \<Longrightarrow> ''FacturasNumber'' ! k \<noteq> CHR ''F''"
proof -
  assume k: "0 < k" "k < 14"
  have a: "\<forall>c \<in> set (tl ''FacturasNumber''). c \<noteq> CHR ''F''" by simp
  have "''FacturasNumber'' ! k = tl ''FacturasNumber'' ! (k - 1)"
    using k by (simp add: nth_tl)
  moreover have "tl ''FacturasNumber'' ! (k - 1) \<in> set (tl ''FacturasNumber'')"
    using k by (intro nth_mem) simp
  ultimately show ?thesis using a by metis
qed

lemma prefix_overlap:
  assumes "prefix ''FacturasNumber'' (a @ ''FacturasNumber'' @ b)" "a \<noteq> []"
  shows "sublist ''FacturasNumber'' a"
proof (cases "length a < 14")
  case True
  from assms(1) obtain zs where zs: "a @ ''FacturasNumber'' @ b = ''FacturasNumber'' @ zs"
    by (rule prefixE)
  have e2: "(''FacturasNumber'' @ zs) ! length a = ''FacturasNumber'' ! length a"
    using True by (simp only: nth_append) simp
  have e1: "(a @ ''FacturasNumber'' @ b) ! length a = CHR ''F''"
    by (simp add: nth_append)
  have "''FacturasNumber'' ! length a = CHR ''F''"
    by (rule trans[OF e2[symmetric] e1[unfolded zs]])
  with pat_nth[of "length a"] True assms(2) show ?thesis by (simp del: nth_Cons_numeral)
next
  case False
  then have "length ''FacturasNumber'' \<le> length a" by simp
  with assms(1) have "prefix ''FacturasNumber'' a"
    by (metis prefix_length_prefix prefixI)
  then show ?thesis by (auto simp: prefix_def)
qed

lemma re_sub_id: "\<not> sublist ''FacturasNumber'' s \<Longrightarrow> re_sub_facturas s = s"
  by (induction s) (auto simp: sublist_Cons_right)

lemma re_sub_here: "re_sub_facturas (''FacturasNumber'' @ b) = ''Facturas Number'' @ re_sub_facturas b"
  by simp

lemma re_sub_first:
  "\<not> sublist ''FacturasNumber'' a \<Longrightarrow>
   re_sub_facturas (a @ ''FacturasNumber'' @ b) = a @ ''Facturas Number'' @ re_sub_facturas b"
proof (induction a)
  case Nil
  show ?case using re_sub_here by simp
next
  case (Cons c a)
  then have ns: "\<not> sublist ''FacturasNumber'' a" by (simp add: sublist_Cons_right)
  have "\<not> prefix ''FacturasNumber'' ((c # a) @ ''FacturasNumber'' @ b)"
    using prefix_overlap[of "c # a" b] Cons.prems by blast
  then have "re_sub_facturas ((c # a) @ ''FacturasNumber'' @ b) = c # re_sub_facturas (a @ ''FacturasNumber'' @ b)"
    by (simp del: Cons_prefix_Cons)
  with Cons.IH[OF ns] show ?case by simp
qed

text \<open>
  C8. The substitution turns \<^verbatim>\<open>FacturasNumber\<close> into \<^verbatim>\<open>Facturas Number\<close>: the leftmost
  occurrence in any string is rewritten (and the rest of the string is treated the same
  way), and a string in which the fourteen characters do not occur is returned unchanged.
\<close>

theorem label_spacing_normalization:
  "re_sub_facturas ''FacturasNumber'' = ''Facturas Number'' \<and>
   (\<not> sublist ''FacturasNumber'' a \<longrightarrow>
      re_sub_facturas (a @ ''FacturasNumber'' @ b) = a @ ''Facturas Number'' @ re_sub_facturas b) \<and>
   (\<not> sublist ''FacturasNumber'' s \<longrightarrow> re_sub_facturas s = s)"
proof (intro conjI impI)
  show "re_sub_facturas ''FacturasNumber'' = ''Facturas Number''" by simp
next
  assume "\<not> sublist ''FacturasNumber'' a"
  then show "re_sub_facturas (a @ ''FacturasNumber'' @ b) = a @ ''Facturas Number'' @ re_sub_facturas b"
    by (rule re_sub_first)
next
  assume "\<not> sublist ''FacturasNumber'' s"
  then show "re_sub_facturas s = s" by (rule re_sub_id)
qed

theorem label_spacing_normalization_witness:
  "\<not> sublist ''FacturasNumber'' ''Mis '' \<and>
   re_sub_facturas (''Mis '' @ ''FacturasNumber'' @ '' 7'') = ''Mis '' @ ''Facturas Number'' @ re_sub_facturas '' 7'' \<and>
   \<not> sublist ''FacturasNumber'' ''Facturas 001-002'' \<and>
   re_sub_facturas ''Facturas 001-002'' = ''Facturas 001-002''"
proof -
  have h1: "\<not> sublist ''FacturasNumber'' ''Mis ''" by (simp add: sublist_code)
  have h2: "\<not> sublist ''FacturasNumber'' ''Facturas 001-002''" by (simp add: sublist_code)
  from label_spacing_normalization [of "''Mis ''" "'' 7''" "''Facturas 001-002''"] h1 h2
  show ?thesis by blast
qed

subsection \<open>Sanitization\<close>

lemma set_strip: "set (py_strip s) \<subseteq> set s"
  by (auto simp: py_strip_def dest!: set_dropWhileD)

lemma set_chain:
  "A = R \<union> B \<Longrightarrow> R = P \<union> X \<Longrightarrow> P \<subseteq> S \<Longrightarrow> B \<subseteq> D \<union> X \<Longrightarrow> D \<subseteq> S \<Longrightarrow> A \<subseteq> S \<union> X"
  by blast

lemma re_sub_chars: "set (re_sub_facturas s) \<subseteq> set s \<union> {CHR '' ''}"
proof (induction s rule: re_sub_facturas.induct)
  case 1
  show ?case by simp
next
  case (2 c cs)
  show ?case
  proof (cases "prefix ''FacturasNumber'' (c # cs)")
    case True
    define P R where "P = ''FacturasNumber''" and "R = ''Facturas Number''"
    have a: "set P \<subseteq> set (c # cs)"
      using True unfolding P_def by (rule set_mono_prefix)
    have b: "set R = set P \<union> {CHR '' ''}"
      unfolding P_def R_def by auto
    have c: "set (drop 14 (c # cs)) \<subseteq> set (c # cs)"
      by (rule set_drop_subset)
    have "re_sub_facturas (c # cs) = R @ re_sub_facturas (drop 14 (c # cs))"
      unfolding R_def using True by (simp del: Cons_prefix_Cons)
    then have "set (re_sub_facturas (c # cs)) = set R \<union> set (re_sub_facturas (drop 14 (c # cs)))"
      by (simp only: set_append)
    then show ?thesis by (rule set_chain[OF _ b a 2(1)[OF True] c])
  next
    case False
    then have "re_sub_facturas (c # cs) = c # re_sub_facturas cs" by (simp del: Cons_prefix_Cons)
    with 2(2)[OF False] show ?thesis by auto
  qed
qed

lemma str_nat_digits: "list_all py_isdecimal (str_nat n)"
proof (induction n rule: str_nat.induct)
  case (1 n)
  have d: "\<And>k. k < 10 \<Longrightarrow> py_isdecimal (digit_char k)"
    by (simp add: py_isdecimal_def in_range_def digit_char_def)
  show ?case using 1 d by (subst str_nat.simps) auto
qed

lemma str_nat_nonempty: "str_nat n \<noteq> []"
  by (subst str_nat.simps) simp

lemma decimal_keep: "py_isdecimal c \<Longrightarrow> keep_char c"
  by (simp add: py_isdecimal_def keep_char_def py_isalnum_def)

lemma str_int_keep: "list_all keep_char (str_int i)"
  using str_nat_digits decimal_keep
  by (auto simp: str_int_def keep_char_def list_all_iff)

lemma placeholder_keep: "list_all keep_char (''documento_'' @ str_int i)"
proof -
  have "list_all keep_char ''documento_''"
    by (simp add: keep_char_def py_isalnum_def in_range_def)
  with str_int_keep show ?thesis by simp
qed

lemma sanitized_keep: "list_all keep_char (re_sub_facturas (py_strip (filter keep_char f)))"
proof -
  have "set (re_sub_facturas (py_strip (filter keep_char f))) \<subseteq> set (filter keep_char f) \<union> {CHR '' ''}"
    using re_sub_chars set_strip by blast
  moreover have "keep_char CHR '' ''" by (simp add: keep_char_def)
  ultimately show ?thesis by (auto simp: list_all_iff)
qed

text \<open>
  C2. Whatever the invoice text and the clock, the name computed in lines 91 to 95 holds
  only alphanumeric characters, hyphens, underscores and spaces, and it is not empty:
  when filtering, stripping and the substitution leave nothing (as for an empty text or
  one made of other characters only), the name is \<^verbatim>\<open>documento_\<close> followed by the clock's
  whole seconds.
\<close>

theorem sanitized_name_safe_and_nonempty:
  "(\<forall>c \<in> set (clean_name_of factura_number now).
      py_isalnum c \<or> c = CHR ''-'' \<or> c = CHR ''_'' \<or> c = CHR '' '') \<and>
   clean_name_of factura_number now \<noteq> [] \<and>
   (re_sub_facturas (py_strip (filter keep_char factura_number)) = [] \<longrightarrow>
      clean_name_of factura_number now = ''documento_'' @ str_int (int_of_time now)) \<and>
   ((\<forall>c \<in> set factura_number. \<not> keep_char c) \<longrightarrow>
      clean_name_of factura_number now = ''documento_'' @ str_int (int_of_time now))"
proof (intro conjI impI)
  have "list_all keep_char (clean_name_of factura_number now)"
    using placeholder_keep sanitized_keep by (simp add: clean_name_of_def Let_def)
  then show "\<forall>c \<in> set (clean_name_of factura_number now).
      py_isalnum c \<or> c = CHR ''-'' \<or> c = CHR ''_'' \<or> c = CHR '' ''"
    by (simp add: list_all_iff keep_char_def)
next
  show "clean_name_of factura_number now \<noteq> []"
    by (simp add: clean_name_of_def Let_def)
next
  assume "re_sub_facturas (py_strip (filter keep_char factura_number)) = []"
  then show "clean_name_of factura_number now = ''documento_'' @ str_int (int_of_time now)"
    by (simp add: clean_name_of_def Let_def)
next
  assume "\<forall>c \<in> set factura_number. \<not> keep_char c"
  then have "filter keep_char factura_number = []" by (simp add: filter_empty_conv)
  then show "clean_name_of factura_number now = ''documento_'' @ str_int (int_of_time now)"
    by (simp add: clean_name_of_def Let_def py_strip_def)
qed

theorem sanitized_name_safe_and_nonempty_witness:
  "list_all (\<lambda>c. \<not> keep_char c) ''/:*?'' \<and>
   re_sub_facturas (py_strip (filter keep_char ''/:*?'')) = [] \<and>
   clean_name_of ''/:*?'' 5123 = ''documento_5'' \<and>
   list_all (\<lambda>c. py_isalnum c \<or> c = CHR ''-'' \<or> c = CHR ''_'' \<or> c = CHR '' '')
     (clean_name_of ''/:*?'' 5123)"
proof -
  have h1: "\<forall>c \<in> set ''/:*?''. \<not> keep_char c"
    by (simp add: keep_char_def py_isalnum_def in_range_def)
  have h2: "re_sub_facturas (py_strip (filter keep_char ''/:*?'')) = []"
    using h1 by (simp add: py_strip_def)
  have v: "''documento_'' @ str_int (int_of_time 5123) = ''documento_5''"
    by code_simp
  from sanitized_name_safe_and_nonempty [of "''/:*?''" 5123] h1 h2 v
  show ?thesis by (simp add: list_all_iff)
qed

section \<open>Properties of the row iterator\<close>

lemma dec_value_snoc: "dec_value (xs @ [c]) = 10 * dec_value xs + digit_val c"
  by (simp add: dec_value_def)

lemma digit_val_digit_char: "d < 10 \<Longrightarrow> digit_val (digit_char d) = d"
  by (simp add: digit_val_def digit_char_def)

lemma dec_value_str_nat: "dec_value (str_nat n) = n"
proof (induction n rule: str_nat.induct)
  case (1 n)
  show ?case
  proof (cases "n < 10")
    case True
    then show ?thesis
      using digit_val_digit_char[of n] by (subst str_nat.simps) (simp add: dec_value_def)
  next
    case False
    then have "str_nat n = str_nat (n div 10) @ [digit_char (n mod 10)]"
      by (subst str_nat.simps) simp
    then show ?thesis
      using 1[OF False] dec_value_snoc digit_val_digit_char[of "n mod 10"] by simp
  qed
qed

lemma py_int_str_nat: "py_int (str_nat n) = Some n"
  by (simp add: py_int_def str_nat_digits str_nat_nonempty dec_value_str_nat)

lemma decimal_is_digit: "py_isdecimal c \<Longrightarrow> py_isdigit c"
  by (simp add: py_isdecimal_def py_isdigit_def)

lemma isdigit_str_nat: "py_isdigit_str (str_nat n)"
  using str_nat_digits[of n] decimal_is_digit
  by (auto simp: py_isdigit_str_def str_nat_nonempty list_all_iff)

lemma colon_not_decimal: "\<not> py_isdecimal CHR '':''"
  by (simp add: py_isdecimal_def in_range_def)

lemma str_nat_no_colon: "CHR '':'' \<notin> set (str_nat n)"
  using str_nat_digits[of n] colon_not_decimal by (auto simp: list_all_iff)

lemma py_split_nonempty: "py_split sep s \<noteq> []"
  by (induction s) (auto split: list.splits)

lemma py_split_no_sep: "sep \<notin> set s \<Longrightarrow> py_split sep s = [s]"
  by (induction s) auto

lemma py_split_first:
  "sep \<notin> set a \<Longrightarrow> py_split sep (a @ sep # rest) = a # py_split sep rest"
  by (induction a) auto

lemma split_row_id:
  assumes "CHR '':'' \<notin> set a" "CHR '':'' \<notin> set b"
  shows "py_split CHR '':'' (a @ '':'' @ b @ '':'' @ str_nat n @ '':'' @ c) =
         a # b # str_nat n # py_split CHR '':'' c"
proof -
  have "py_split CHR '':'' (a @ CHR '':'' # (b @ CHR '':'' # (str_nat n @ CHR '':'' # c))) =
        a # py_split CHR '':'' (b @ CHR '':'' # (str_nat n @ CHR '':'' # c))"
    using assms(1) by (rule py_split_first)
  also have "py_split CHR '':'' (b @ CHR '':'' # (str_nat n @ CHR '':'' # c)) =
        b # py_split CHR '':'' (str_nat n @ CHR '':'' # c)"
    using assms(2) by (rule py_split_first)
  also have "py_split CHR '':'' (str_nat n @ CHR '':'' # c) = str_nat n # py_split CHR '':'' c"
    using str_nat_no_colon by (rule py_split_first)
  finally show ?thesis by simp
qed

lemma index_of_row_id:
  assumes "CHR '':'' \<notin> set a" "CHR '':'' \<notin> set b"
  shows "index_of_id (Some (a @ '':'' @ b @ '':'' @ str_nat n @ '':'' @ c)) = Some n"
  by (simp only: index_of_id_def option.case Let_def split_row_id[OF assms])
     (simp add: isdigit_str_nat py_int_str_nat)

lemma index_of_xml_link_id: "index_of_id (Some (xml_link_id n)) = Some n"
proof -
  have e: "xml_link_id n = ''frmPrincipal'' @ '':'' @ ''tablaCompRecibidos'' @ '':'' @ str_nat n @ '':'' @ ''lnkXml''"
    by (simp add: xml_link_id_def)
  have a: "CHR '':'' \<notin> set ''frmPrincipal''" by simp
  have b: "CHR '':'' \<notin> set ''tablaCompRecibidos''" by simp
  show ?thesis unfolding e by (rule index_of_row_id[OF a b])
qed

lemma extract_indices_acc:
  "extract_indices xml_links acc = acc @ List.map_filter index_of_id xml_links"
  by (induction xml_links arbitrary: acc) (auto split: option.splits)

text \<open>
  C5. An identifier of the form \<open>a:b:n:c\<close>, where \<open>n\<close> is the decimal writing of a
  number (as in \<^verbatim>\<open>frmPrincipal:tablaCompRecibidos:50:lnkXml\<close>), gives that number. An anchor
  with no \<^verbatim>\<open>id\<close>, with fewer than three segments or with a third segment that is not made
  of digits gives nothing; the extraction is a total function, so it never raises. The
  indices are those of the anchors that give one, in the order of the anchors.
\<close>

theorem row_index_extraction:
  "(CHR '':'' \<notin> set a \<and> CHR '':'' \<notin> set b \<longrightarrow>
      index_of_id (Some (a @ '':'' @ b @ '':'' @ str_nat n @ '':'' @ c)) = Some n) \<and>
   index_of_id (Some (xml_link_id n)) = Some n \<and>
   index_of_id None = None \<and>
   (length (py_split CHR '':'' s) < 3 \<longrightarrow> index_of_id (Some s) = None) \<and>
   (\<not> py_isdigit_str (py_split CHR '':'' s ! 2) \<longrightarrow> index_of_id (Some s) = None) \<and>
   extract_indices xml_links [] = List.map_filter index_of_id xml_links"
proof (intro conjI impI)
  assume "CHR '':'' \<notin> set a \<and> CHR '':'' \<notin> set b"
  then show "index_of_id (Some (a @ '':'' @ b @ '':'' @ str_nat n @ '':'' @ c)) = Some n"
    using index_of_row_id by blast
next
  show "index_of_id (Some (xml_link_id n)) = Some n" by (rule index_of_xml_link_id)
next
  show "index_of_id None = None" by (simp add: index_of_id_def)
next
  assume "length (py_split CHR '':'' s) < 3"
  then show "index_of_id (Some s) = None" by (simp add: index_of_id_def Let_def)
next
  assume "\<not> py_isdigit_str (py_split CHR '':'' s ! 2)"
  then show "index_of_id (Some s) = None" by (simp add: index_of_id_def Let_def)
next
  show "extract_indices xml_links [] = List.map_filter index_of_id xml_links"
    using extract_indices_acc[of xml_links "[]"] by simp
qed

theorem row_index_extraction_witness:
  "CHR '':'' \<notin> set ''frmPrincipal'' \<and> CHR '':'' \<notin> set ''tablaCompRecibidos'' \<and>
   index_of_id (Some ''frmPrincipal:tablaCompRecibidos:50:lnkXml'') = Some 50 \<and>
   length (py_split CHR '':'' ''lnkXml:7'') < 3 \<and>
   index_of_id (Some ''lnkXml:7'') = None \<and>
   extract_indices [Some ''f:t:7:lnkXml'', None, Some ''f:t:x:lnkXml'', Some ''f:t:5:lnkXml''] [] = [7, 5]"
proof -
  have v: "str_nat 50 = ''50''" by code_simp
  have e: "List.map_filter index_of_id
             [Some ''f:t:7:lnkXml'', None, Some ''f:t:x:lnkXml'', Some ''f:t:5:lnkXml''] = [7, 5]"
    by code_simp
  from row_index_extraction [of "''frmPrincipal''" "''tablaCompRecibidos''" 50 "''lnkXml''"
      "''lnkXml:7''" "[Some ''f:t:7:lnkXml'', None, Some ''f:t:x:lnkXml'', Some ''f:t:5:lnkXml'']"]
    v e
  show ?thesis by simp
qed

section \<open>Properties of the download wait\<close>

text \<open>
  C9. When the directory holds no \<^verbatim>\<open>*.crdownload\<close> entry at the first poll, the wait
  returns \<^verbatim>\<open>True\<close> after its pause of 15 ms, without polling again. In particular it
  returns \<^verbatim>\<open>True\<close> on an empty downloads directory: \<^verbatim>\<open>True\<close> does not say that a file was
  downloaded.
\<close>

theorem wait_true_without_marker:
  "(0 < timeout \<and> glob_crdownload (w_downloads w) = [] \<longrightarrow>
      wait_for_download_complete E timeout w = (True, sleep E 15 w)) \<and>
   (0 < timeout \<and> w_downloads w = [] \<longrightarrow> fst (wait_for_download_complete E timeout w))"
proof -
  have a: "wait_for_download_complete E timeout w = (True, sleep E 15 w)"
    if "0 < timeout" "glob_crdownload (w_downloads w) = []"
    using that by (simp add: wait_for_download_complete_def wait_loop.simps[of E "w_time w"])
  have b: "glob_crdownload (w_downloads w) = []" if "w_downloads w = []"
    using that by (simp add: glob_crdownload_def)
  show ?thesis using a b by simp
qed

theorem wait_true_without_marker_witness:
  "(0::int) < 15000 \<and> w_downloads empty_world = [] \<and>
   glob_crdownload (w_downloads empty_world) = [] \<and>
   wait_for_download_complete quiet_env 15000 empty_world = (True, sleep quiet_env 15 empty_world) \<and>
   fst (wait_for_download_complete quiet_env 15000 empty_world) \<and>
   w_downloads (snd (wait_for_download_complete quiet_env 15000 empty_world)) = []"
proof -
  have h: "w_downloads empty_world = []" by (simp add: empty_world_def)
  have g: "glob_crdownload (w_downloads empty_world) = []" by (simp add: h glob_crdownload_def)
  have s: "w_downloads (sleep quiet_env 15 empty_world) = []"
    by (simp add: sleep_def interact_def quiet_env_def empty_world_def)
  from wait_true_without_marker [of 15000 empty_world quiet_env] h g s
  show ?thesis by simp
qed

section \<open>Properties of the pagination\<close>

lemma trace_interact: "w_trace (interact E d w) = w_trace w"
  by (simp add: interact_def)

lemma trace_sleep: "w_trace (sleep E d w) = w_trace w"
  by (simp add: sleep_def interact_def)

lemma trace_emit: "w_trace (emit ev w) = w_trace w @ [ev]"
  by (simp add: emit_def)

lemma py_in_sublist: "py_in sub s = sublist sub s"
  by (induction s) (simp_all add: sublist_Cons_right)

lemma tokens_sublist: "t \<in> set (spec_tokens_from cur s) \<Longrightarrow> sublist t (cur @ s)"
proof (induction s arbitrary: cur)
  case Nil
  then show ?case by (auto split: if_splits)
next
  case (Cons c cs)
  show ?case
  proof (cases "html_space c")
    case True
    then have "t = cur \<or> t \<in> set (spec_tokens_from [] cs)"
      using Cons.prems by (auto split: if_splits)
    then show ?thesis
    proof
      assume "t = cur"
      then show ?thesis by simp
    next
      assume "t \<in> set (spec_tokens_from [] cs)"
      then have "sublist t cs" using Cons.IH[of "[]"] by simp
      then obtain ps ss where "cs = ps @ t @ ss" by (auto simp: sublist_def)
      then have "(cur @ [c]) @ cs = ((cur @ [c]) @ ps) @ t @ ss" by simp
      then have "sublist t ((cur @ [c]) @ cs)" unfolding sublist_def by blast
      then show ?thesis by simp
    qed
  next
    case False
    then have "t \<in> set (spec_tokens_from (cur @ [c]) cs)" using Cons.prems by simp
    then have "sublist t ((cur @ [c]) @ cs)" by (rule Cons.IH)
    then show ?thesis by simp
  qed
qed

lemma token_is_substring:
  "spec_has_class_token attr tok \<Longrightarrow> py_in tok (case attr of None \<Rightarrow> [] | Some s \<Rightarrow> s)"
  using tokens_sublist[of tok "[]"]
  by (auto simp: spec_has_class_token_def py_in_sublist split: option.splits)

lemma try_buttons_trace:
  "w_trace (snd (try_buttons E bs k w)) = w_trace w \<or>
   (\<exists>j < length bs. w_trace (snd (try_buttons E bs k w)) = w_trace w @ [NextClicked (k + j)] \<and>
      (\<exists>attr. b_class (bs ! j) = Inr attr \<and>
         \<not> py_in ''ui-state-disabled'' (case attr of None \<Rightarrow> [] | Some s \<Rightarrow> s)))"
proof (induction bs arbitrary: k)
  case Nil
  show ?case by simp
next
  case (Cons b bs)
  show ?case
  proof (cases "b_class b")
    case (Inl e)
    then show ?thesis by simp
  next
    case (Inr attr)
    show ?thesis
    proof (cases "py_in ''ui-state-disabled'' (case attr of None \<Rightarrow> [] | Some s \<Rightarrow> s)")
      case False
      then have "w_trace (snd (try_buttons E (b # bs) k w)) = w_trace w @ [NextClicked (k + 0)]"
        using Inr by (simp add: Let_def trace_interact trace_sleep trace_emit split: option.split)
      then show ?thesis using Inr False by (intro disjI2 exI[of _ 0]) simp
    next
      case True
      then have eq: "try_buttons E (b # bs) k w = try_buttons E bs (k + 1) w"
        using Inr by (simp add: Let_def)
      from Cons.IH[of "k + 1"] show ?thesis
      proof
        assume "w_trace (snd (try_buttons E bs (k + 1) w)) = w_trace w"
        then show ?thesis using eq by simp
      next
        assume "\<exists>j<length bs. w_trace (snd (try_buttons E bs (k + 1) w)) = w_trace w @ [NextClicked (k + 1 + j)] \<and>
          (\<exists>attr. b_class (bs ! j) = Inr attr \<and>
             \<not> py_in ''ui-state-disabled'' (case attr of None \<Rightarrow> [] | Some s \<Rightarrow> s))"
        then obtain j where j: "j < length bs"
          "w_trace (snd (try_buttons E bs (k + 1) w)) = w_trace w @ [NextClicked (k + 1 + j)]"
          "\<exists>attr. b_class (bs ! j) = Inr attr \<and>
             \<not> py_in ''ui-state-disabled'' (case attr of None \<Rightarrow> [] | Some s \<Rightarrow> s)"
          by blast
        show ?thesis
          using j eq by (intro disjI2 exI[of _ "Suc j"]) simp
      qed
    qed
  qed
qed

lemma try_buttons_all_disabled:
  "list_all (\<lambda>b. \<exists>attr. b_class b = Inr attr \<and>
       py_in ''ui-state-disabled'' (case attr of None \<Rightarrow> [] | Some s \<Rightarrow> s)) bs \<Longrightarrow>
   try_buttons E bs k w = (Inr False, w)"
  by (induction bs arbitrary: k) (auto simp: Let_def)

text \<open>
  C4. Let the search for the ``next page'' controls answer the list \<open>bs\<close>. Then
  \<^verbatim>\<open>go_to_next_page\<close> clicks at most one control, and a control it clicks has a \<^verbatim>\<open>class\<close>
  attribute in which \<^verbatim>\<open>ui-state-disabled\<close> does not occur, so that it does not bear that
  class token. When there is no control, and when the attribute of every control
  contains \<^verbatim>\<open>ui-state-disabled\<close>, nothing is clicked and the result is \<^verbatim>\<open>False\<close>.
\<close>

theorem next_page_never_clicks_disabled:
  assumes "env_next E (w_steps w) = Inr bs"
  shows
  "(w_trace (snd (go_to_next_page E w)) = w_trace w \<or>
    (\<exists>k < length bs. w_trace (snd (go_to_next_page E w)) = w_trace w @ [NextClicked k] \<and>
       (\<exists>attr. b_class (bs ! k) = Inr attr \<and>
          \<not> py_in ''ui-state-disabled'' (case attr of None \<Rightarrow> [] | Some s \<Rightarrow> s) \<and>
          \<not> spec_has_class_token attr ''ui-state-disabled''))) \<and>
   (bs = [] \<longrightarrow> go_to_next_page E w = (Inr False, interact E 0 w)) \<and>
   (list_all (\<lambda>b. \<exists>attr. b_class b = Inr attr \<and>
        py_in ''ui-state-disabled'' (case attr of None \<Rightarrow> [] | Some s \<Rightarrow> s)) bs \<longrightarrow>
      go_to_next_page E w = (Inr False, interact E 0 w))"
proof (intro conjI impI)
  have t: "w_trace (snd (go_to_next_page E w)) = w_trace (snd (try_buttons E bs 0 (interact E 0 w)))"
    using assms by (simp add: go_to_next_page_def split_beta split: sum.split)
  from try_buttons_trace[of E bs 0 "interact E 0 w"]
  show "w_trace (snd (go_to_next_page E w)) = w_trace w \<or>
    (\<exists>k < length bs. w_trace (snd (go_to_next_page E w)) = w_trace w @ [NextClicked k] \<and>
       (\<exists>attr. b_class (bs ! k) = Inr attr \<and>
          \<not> py_in ''ui-state-disabled'' (case attr of None \<Rightarrow> [] | Some s \<Rightarrow> s) \<and>
          \<not> spec_has_class_token attr ''ui-state-disabled''))"
    unfolding t trace_interact using token_is_substring by fastforce
next
  assume "bs = []"
  then show "go_to_next_page E w = (Inr False, interact E 0 w)"
    using assms by (simp add: go_to_next_page_def)
next
  assume "list_all (\<lambda>b. \<exists>attr. b_class b = Inr attr \<and>
        py_in ''ui-state-disabled'' (case attr of None \<Rightarrow> [] | Some s \<Rightarrow> s)) bs"
  then have "try_buttons E bs 0 (interact E 0 w) = (Inr False, interact E 0 w)"
    by (rule try_buttons_all_disabled)
  then show "go_to_next_page E w = (Inr False, interact E 0 w)"
    using assms by (simp add: go_to_next_page_def)
qed

theorem next_page_never_clicks_disabled_witness:
  "env_next paging_env (w_steps empty_world) = Inr next_buttons_sample \<and>
   w_trace (snd (go_to_next_page paging_env empty_world)) = [NextClicked 1] \<and>
   fst (go_to_next_page paging_env empty_world) = Inr True \<and>
   b_class (next_buttons_sample ! 1) = Inr (Some ''ui-paginator-next'') \<and>
   spec_has_class_token (Some ''ui-paginator-next ui-state-disabled'') ''ui-state-disabled''"
proof -
  have h: "env_next paging_env (w_steps empty_world) = Inr next_buttons_sample"
    by (simp add: paging_env_def)
  have t: "w_trace (snd (go_to_next_page paging_env empty_world)) = [NextClicked 1]"
    by code_simp
  have r: "fst (go_to_next_page paging_env empty_world) = Inr True"
    by code_simp
  have c: "b_class (next_buttons_sample ! 1) = Inr (Some ''ui-paginator-next'')"
    by (simp add: next_buttons_sample_def)
  have s: "spec_has_class_token (Some ''ui-paginator-next ui-state-disabled'') ''ui-state-disabled''"
    by code_simp
  from next_page_never_clicks_disabled [OF h] h t r c s
  show ?thesis by simp
qed

end
